theory Spec2Isabelle
  imports Complex_Main "HOL-Library.Word"
begin

section \<open>The probability post-processing pipeline\<close>

text \<open>
  The embedding covers \<^verbatim>\<open>ProbabilityAdjustment.h\<close> (the adjuster) and the numeric part
  of \<^verbatim>\<open>main.cpp\<close>: \<^verbatim>\<open>applyEma\<close>, \<^verbatim>\<open>medianFromHistory\<close> and the body of the
  frame loop of \<^verbatim>\<open>captureVideoAndProcess\<close> between inference and visualisation.

  A \<^verbatim>\<open>std::vector<float>\<close> is a list, a \<^verbatim>\<open>std::deque<std::vector<float>>\<close> a list of
  lists with the front of the deque at the head. The element type is a type variable
  that carries only the operations the code uses (\<open>0\<close>, \<open>1\<close>, \<open>+\<close>, \<open>-\<close>, \<open>*\<close>, \<open>/\<close>,
  \<open><\<close>): the structural theorems below hold for every such type and never use
  a law of arithmetic. Only \<^verbatim>\<open>std::nth_element\<close> needs more, a linear order, which is
  its own precondition (a strict weak ordering, so no NaN in the column). Concrete
  runs are evaluated at type \<open>real\<close>, that is in exact arithmetic; binary32 rounding
  is not modelled, so such a run is the run of the code only where every operation on
  the way is exact in binary32.
\<close>

subsection \<open>Errors\<close>

text \<open>
  Nothing in the source throws. The only failure is \<^verbatim>\<open>operator[]\<close> of a vector used
  with an index that is not below its size, which is undefined behaviour in C++; the
  model makes it a value.
\<close>

datatype error = IndexOutOfRange

subsection \<open>The adjuster\<close>

type_synonym int32 = "32 word"

record 'a EmotionProbabilityAdjuster =
  boostFactor :: 'a
  neutralIndex :: int32

text \<open>
  The constructor stores its two arguments and has an empty body. It is given a result
  type with an error side so that "construction fails" can be said at all; the source
  has no path to that side.
\<close>

definition new_EmotionProbabilityAdjuster ::
  "'a \<Rightarrow> int32 \<Rightarrow> error + 'a EmotionProbabilityAdjuster" where
  "new_EmotionProbabilityAdjuster bf ni = Inr \<lparr>boostFactor = bf, neutralIndex = ni\<rparr>"

text \<open>\<^verbatim>\<open>static_cast<size_t>(neutralIndex)\<close>: sign extension of the \<^verbatim>\<open>int\<close> to 64 bits, read unsigned.\<close>

definition static_cast_size_t :: "int32 \<Rightarrow> nat" where
  "static_cast_size_t i = unat (scast i :: 64 word)"

text \<open>\<^verbatim>\<open>std::accumulate(first, last, init)\<close>: a left fold with \<open>+\<close>, starting from \<open>init\<close>.\<close>

definition accumulate :: "'a::plus list \<Rightarrow> 'a \<Rightarrow> 'a" where
  "accumulate xs init = foldl (+) init xs"

text \<open>
  \<^verbatim>\<open>adjusted[neutralIndex]\<close> converts the \<^verbatim>\<open>int\<close> to \<^verbatim>\<open>size_type\<close> exactly as the cast in
  the guard does, so the access is always below the size.
\<close>

definition adjust ::
  "'a::{zero,plus,times,inverse,ord} EmotionProbabilityAdjuster \<Rightarrow> 'a list \<Rightarrow> 'a list" where
  "adjust self probabilities =
     (let adjusted = probabilities;
          k = static_cast_size_t (neutralIndex self);
          adjusted = (if length adjusted > k
                      then adjusted[k := adjusted ! k * boostFactor self]
                      else adjusted);
          s = accumulate adjusted 0
      in if s > 0 then map (\<lambda>p. p / s) adjusted else adjusted)"

subsection \<open>Exponential moving average\<close>

text \<open>
  The loop of \<^verbatim>\<open>applyEma\<close> runs \<open>i\<close> over the indices of \<^verbatim>\<open>new_probs\<close> and reads and
  writes \<^verbatim>\<open>ema_state[i]\<close> with no check against the size of \<^verbatim>\<open>ema_state\<close>.
\<close>

function ema_loop ::
  "'a::{one,plus,minus,times} list \<Rightarrow> 'a \<Rightarrow> nat \<Rightarrow> 'a list \<Rightarrow> error + 'a list" where
  "ema_loop new_probs alpha i ema_state =
     (if i < length new_probs
      then (if i < length ema_state
            then ema_loop new_probs alpha (Suc i)
                   (ema_state[i := alpha * new_probs ! i + (1 - alpha) * ema_state ! i])
            else Inl IndexOutOfRange)
      else Inr ema_state)"
  by pat_completeness auto
termination
  by (relation "measure (\<lambda>(new_probs, alpha, i, ema_state). length new_probs - i)") auto

text \<open>
  \<^verbatim>\<open>applyEma\<close> changes \<^verbatim>\<open>ema_state\<close> through the reference and returns a copy of it: the
  model returns the pair (returned vector, new \<^verbatim>\<open>ema_state\<close>).
\<close>

definition applyEma ::
  "'a::{one,plus,minus,times} list \<Rightarrow> 'a list \<Rightarrow> 'a \<Rightarrow> error + ('a list \<times> 'a list)" where
  "applyEma new_probs ema_state alpha =
     (if ema_state = [] then Inr (new_probs, new_probs)
      else (case ema_loop new_probs alpha 0 ema_state of
              Inl e \<Rightarrow> Inl e
            | Inr ema_state' \<Rightarrow> Inr (ema_state', ema_state')))"

subsection \<open>The history buffer\<close>

text \<open>
  \<^verbatim>\<open>history.push_back(ema_probs); if (history.size() > maxHistory) history.pop_front();\<close>
  The bound is the constant 60 in the source; it is a parameter here.
\<close>

definition push_history :: "nat \<Rightarrow> 'a list list \<Rightarrow> 'a list \<Rightarrow> 'a list list" where
  "push_history maxHistory history ema_probs =
     (let history = history @ [ema_probs]
      in if length history > maxHistory then tl history else history)"

definition push_all :: "nat \<Rightarrow> 'a list list \<Rightarrow> 'a list list \<Rightarrow> 'a list list" where
  "push_all maxHistory history items = foldl (push_history maxHistory) history items"

subsection \<open>Median over the history\<close>

text \<open>The inner loop: \<^verbatim>\<open>for (h : history) if (c < h.size()) col.push_back(h[c]);\<close>\<close>

fun collect_column :: "nat \<Rightarrow> 'a list list \<Rightarrow> 'a list \<Rightarrow> 'a list" where
  "collect_column c [] col = col"
| "collect_column c (h # hs) col =
     collect_column c hs (if c < length h then col @ [h ! c] else col)"

text \<open>
  \<^verbatim>\<open>std::nth_element(first, nth, last)\<close> rearranges the range so that the element at
  \<open>nth\<close> is the one a full sort would put there; the order of the others is left open by
  the standard, and the caller reads position \<open>nth\<close> only. A full sort is one such
  rearrangement.
\<close>

definition nth_element :: "'a::linorder list \<Rightarrow> nat \<Rightarrow> 'a list" where
  "nth_element col n = sort col"

definition median_step :: "'a::{zero,linorder} list list \<Rightarrow> nat \<Rightarrow> 'a list \<Rightarrow> 'a list" where
  "median_step history c medians =
     (let col = collect_column c history []
      in if col \<noteq> []
         then (let col = nth_element col (length col div 2)
               in medians[c := col ! (length col div 2)])
         else medians)"

definition medianFromHistory :: "'a::{zero,linorder} list list \<Rightarrow> 'a list" where
  "medianFromHistory history =
     (if history = [] then []
      else (let classesCount = length (hd history);
                medians = replicate classesCount 0
            in fold (median_step history) [0..<classesCount] medians))"

subsection \<open>One cycle of the frame loop\<close>

text \<open>
  The state that survives a frame is \<^verbatim>\<open>history\<close> and \<^verbatim>\<open>ema_state\<close>, both empty before the
  loop. The configuration gathers the constants of the source: the adjuster built in
  the loop (\<^verbatim>\<open>adjuster(2.0f)\<close>, hence \<^verbatim>\<open>neutralIndex = 3\<close>), \<^verbatim>\<open>ema_alpha = 0.1f\<close> and
  \<^verbatim>\<open>maxHistory = 60\<close>.
\<close>

record 'a pipeline =
  history :: "'a list list"
  ema_state :: "'a list"

record 'a config =
  adjuster :: "'a EmotionProbabilityAdjuster"
  ema_alpha :: 'a
  maxHistory :: nat

definition initial :: "'a pipeline" where
  "initial = \<lparr>history = [], ema_state = []\<rparr>"

definition reference_config :: "real config" where
  "reference_config =
     \<lparr>adjuster = \<lparr>boostFactor = 2, neutralIndex = 3\<rparr>, ema_alpha = 1 / 10, maxHistory = 60\<rparr>"

text \<open>
  A cycle takes the vector returned by \<^verbatim>\<open>face2Int\<close>. An empty vector skips the frame
  (\<^verbatim>\<open>continue\<close>): nothing is displayed and the state is unchanged. Otherwise the result
  is the new state and the vector handed to \<^verbatim>\<open>visualizeProbabilities\<close>.
\<close>

definition display_probs :: "'a list \<Rightarrow> 'a list \<Rightarrow> 'a list" where
  "display_probs median_probs ema_probs =
     (if median_probs = [] then ema_probs else median_probs)"

definition cycle ::
  "'a::{zero,one,plus,minus,times,inverse,linorder} config \<Rightarrow> 'a pipeline \<Rightarrow> 'a list
     \<Rightarrow> error + ('a pipeline \<times> 'a list option)" where
  "cycle cfg st probabilities =
     (if probabilities = [] then Inr (st, None)
      else (let adjustedProbabilities = adjust (adjuster cfg) probabilities
            in case applyEma adjustedProbabilities (ema_state st) (ema_alpha cfg) of
                 Inl e \<Rightarrow> Inl e
               | Inr (ema_probs, ema_state') \<Rightarrow>
                   (let history' = push_history (maxHistory cfg) (history st) ema_probs;
                        median_probs = medianFromHistory history'
                    in Inr (\<lparr>history = history', ema_state = ema_state'\<rparr>,
                            Some (display_probs median_probs ema_probs)))))"

text \<open>A run of the loop over the vectors of successive frames, stopping at the first failure.\<close>

fun run ::
  "'a::{zero,one,plus,minus,times,inverse,linorder} config \<Rightarrow> 'a pipeline \<Rightarrow> 'a list list
     \<Rightarrow> error + ('a pipeline \<times> 'a list option list)" where
  "run cfg st [] = Inr (st, [])"
| "run cfg st (p # ps) =
     (case cycle cfg st p of
        Inl e \<Rightarrow> Inl e
      | Inr (st', d) \<Rightarrow>
          (case run cfg st' ps of
             Inl e \<Rightarrow> Inl e
           | Inr (st'', ds) \<Rightarrow> Inr (st'', d # ds)))"

text \<open>
  The configuration of the end-to-end scenario of the specification: four classes, the
  neutral index 3 and a history of three entries. The boost factor and the smoothing
  coefficient (\<^verbatim>\<open>2.0f\<close> and \<^verbatim>\<open>0.1f\<close> in the scenario) are values of the element type
  and stay parameters.
\<close>

definition scenario_config :: "'a \<Rightarrow> 'a \<Rightarrow> 'a config" where
  "scenario_config bf a =
     \<lparr>adjuster = \<lparr>boostFactor = bf, neutralIndex = 3\<rparr>, ema_alpha = a, maxHistory = 3\<rparr>"

subsection \<open>Notions of the specification\<close>

text \<open>
  The column of class \<open>c\<close>, in the words of the specification: the value at index \<open>c\<close> of
  every entry that has at least \<open>c + 1\<close> elements, in the order of the history.
\<close>

definition column :: "nat \<Rightarrow> 'a list list \<Rightarrow> 'a list" where
  "column c hs = map (\<lambda>h. h ! c) (filter (\<lambda>h. c < length h) hs)"

text \<open>
  The two middle positions of a sorted column. They are one position when the size is
  odd; when it is even the lower one is the last of the first half and the upper one
  the first of the second half.
\<close>

definition upper_middle :: "'a::linorder list \<Rightarrow> 'a" where
  "upper_middle col = sort col ! (length col div 2)"

definition lower_middle :: "'a::linorder list \<Rightarrow> 'a" where
  "lower_middle col = sort col ! ((length col - 1) div 2)"

text \<open>
  The blend of the specification, index by index over the indices valid in both
  vectors: \<open>alpha * newDistribution[i] + (1 - alpha) * EmaState[i]\<close>.
\<close>

definition ema_blend :: "'a::{one,plus,minus,times} \<Rightarrow> 'a list \<Rightarrow> 'a list \<Rightarrow> 'a list" where
  "ema_blend alpha new_probs es = map (\<lambda>(p, e). alpha * p + (1 - alpha) * e) (zip new_probs es)"

section \<open>Properties\<close>

subsection \<open>The cast of the neutral index\<close>

lemma uint_static_cast:
  "uint (scast (i :: 32 word) :: 64 word) = sint i mod 2 ^ 64"
proof -
  have "uint (scast i :: 64 word) = uint (word_of_int (sint i) :: 64 word)"
    by (simp only: scast_eq [symmetric])
  also have "\<dots> = sint i mod 2 ^ 64"
    by (simp only: uint_word_of_int) simp
  finally show ?thesis .
qed

text \<open>A non-negative index is its own cast.\<close>

lemma static_cast_size_t_nonneg:
  assumes "0 \<le> sint i"
  shows "static_cast_size_t i = nat (sint i)"
proof -
  have "sint i < 2 ^ 31"
    using sint_lt [of i] by simp
  then have "sint i < 2 ^ 64" by simp
  with assms have "sint i mod 2 ^ 64 = sint i"
    by (intro mod_pos_pos_trivial)
  then show ?thesis
    by (simp only: static_cast_size_t_def unat_eq_nat_uint uint_static_cast)
qed

text \<open>
  A negative index becomes a size no vector of floats can have, so the guard of
  \<^verbatim>\<open>adjust\<close> is false for it and nothing is boosted.
\<close>

lemma static_cast_size_t_neg:
  assumes "sint i < 0"
  shows "2 ^ 63 \<le> static_cast_size_t i"
proof -
  have lo: "- (2 ^ 31) \<le> sint i"
    using sint_ge [of i] by simp
  have "sint i mod 2 ^ 64 = (sint i + 2 ^ 64) mod 2 ^ 64"
    by simp
  also have "\<dots> = sint i + 2 ^ 64"
    using assms lo by (intro mod_pos_pos_trivial) simp_all
  finally have "uint (scast i :: 64 word) = sint i + 2 ^ 64"
    by (simp only: uint_static_cast)
  then have "2 ^ 63 \<le> uint (scast i :: 64 word)"
    using lo by simp
  then have "nat (2 ^ 63) \<le> nat (uint (scast i :: 64 word))"
    by (rule nat_mono)
  then show ?thesis
    by (simp only: static_cast_size_t_def unat_eq_nat_uint) simp
qed

subsection \<open>The adjuster\<close>


lemma boosted_pointwise:
  "(if n < length xs then xs[n := xs ! n * bf] else xs) =
   map (\<lambda>j. if j = n then xs ! j * bf else xs ! j) [0..<length xs]"
proof (cases "n < length xs")
  case True
  then show ?thesis
    by (intro nth_equalityI) (simp_all add: nth_list_update)
next
  case False
  then show ?thesis
    by (intro nth_equalityI) auto
qed

text \<open>
  Claim C1. For every input vector, of any length and with any values, \<open>adjust\<close>
  returns the copy of the input in which the element at the neutral index is multiplied
  by the boost factor exactly when the length of the input exceeds that index (the copy
  is the input itself otherwise), divided element by element by the sum of the copy
  when that sum is positive, and the copy as it is when the sum is not positive, which
  includes the empty input. The function has no failing path: its only indexed access
  is under the guard. The neutral index is taken as an index, that is non-negative.
\<close>

theorem adjust_boost_then_normalise:
  fixes probabilities :: "'a::{zero,plus,times,inverse,preorder} list"
  assumes "0 \<le> sint (neutralIndex self)"
  shows "let n = nat (sint (neutralIndex self));
             boosted = map (\<lambda>j. if j = n then probabilities ! j * boostFactor self
                                 else probabilities ! j) [0..<length probabilities];
             s = accumulate boosted 0
         in (n < length probabilities \<longrightarrow>
               boosted = probabilities[n := probabilities ! n * boostFactor self])
          \<and> (\<not> n < length probabilities \<longrightarrow> boosted = probabilities)
          \<and> (0 < s \<longrightarrow> adjust self probabilities = map (\<lambda>p. p / s) boosted)
          \<and> (s \<le> 0 \<longrightarrow> adjust self probabilities = boosted)
          \<and> (\<not> 0 < s \<longrightarrow> adjust self probabilities = boosted)"
proof -
  define n where "n = nat (sint (neutralIndex self))"
  define boosted where "boosted = map (\<lambda>j. if j = n then probabilities ! j * boostFactor self
                                 else probabilities ! j) [0..<length probabilities]"
  define s where "s = accumulate boosted 0"
  have k: "static_cast_size_t (neutralIndex self) = n"
    using assms by (simp only: n_def static_cast_size_t_nonneg)
  have b: "(if n < length probabilities
            then probabilities[n := probabilities ! n * boostFactor self]
            else probabilities) = boosted"
    unfolding boosted_def by (rule boosted_pointwise)
  have a: "adjust self probabilities = (if 0 < s then map (\<lambda>p. p / s) boosted else boosted)"
    unfolding s_def b [symmetric] by (simp add: adjust_def k Let_def)
  have le: "s \<le> 0 \<Longrightarrow> \<not> 0 < s"
    by (simp add: less_le_not_le)
  have "(n < length probabilities \<longrightarrow>
               boosted = probabilities[n := probabilities ! n * boostFactor self])
          \<and> (\<not> n < length probabilities \<longrightarrow> boosted = probabilities)"
    using b by (simp split: if_splits)
  moreover have "(0 < s \<longrightarrow> adjust self probabilities = map (\<lambda>p. p / s) boosted)
          \<and> (s \<le> 0 \<longrightarrow> adjust self probabilities = boosted)
          \<and> (\<not> 0 < s \<longrightarrow> adjust self probabilities = boosted)"
    using a le by simp
  ultimately show ?thesis
    unfolding Let_def n_def [symmetric] boosted_def [symmetric] s_def [symmetric] by blast
qed

theorem adjust_boost_then_normalise_witness:
  "0 \<le> sint (neutralIndex \<lparr>boostFactor = 2 :: real, neutralIndex = 3\<rparr>)
   \<and> adjust \<lparr>boostFactor = 2, neutralIndex = 3\<rparr> [1 / 2, 0, 0, 1 / 4 :: real] = [1 / 2, 0, 0, 1 / 2]
   \<and> adjust \<lparr>boostFactor = 2, neutralIndex = 3\<rparr> [1 / 2, 1 / 2 :: real] = [1 / 2, 1 / 2]
   \<and> adjust \<lparr>boostFactor = 2, neutralIndex = 3\<rparr> [0, 0, 0, 0 :: real] = [0, 0, 0, 0]"
proof -
  have h: "0 \<le> sint (neutralIndex \<lparr>boostFactor = 2 :: real, neutralIndex = 3\<rparr>)"
    by simp
  show ?thesis
    using h
      adjust_boost_then_normalise [OF h, of "[1 / 2, 0, 0, 1 / 4]"]
      adjust_boost_then_normalise [OF h, of "[1 / 2, 1 / 2]"]
      adjust_boost_then_normalise [OF h, of "[0, 0, 0, 0]"]
    by (simp add: accumulate_def Let_def upt_rec)
qed

subsection \<open>Exponential moving average\<close>

declare ema_loop.simps [simp del]

lemma ema_loop_length:
  "ema_loop new_probs alpha i es = Inr r \<Longrightarrow> length r = length es"
proof (induction new_probs alpha i es rule: ema_loop.induct)
  case (1 new_probs alpha i es)
  show ?case
  proof (cases "i < length new_probs \<and> i < length es")
    case True
    with "1.prems" have "ema_loop new_probs alpha (Suc i)
        (es[i := alpha * new_probs ! i + (1 - alpha) * es ! i]) = Inr r"
      by (subst (asm) ema_loop.simps) simp
    with True "1.IH" show ?thesis by simp
  next
    case False
    with "1.prems" show ?thesis
      by (subst (asm) ema_loop.simps) (auto split: if_splits)
  qed
qed

text \<open>The loop on a state that is long enough: the indices from \<open>i\<close> on, below the length
  of the new vector, are blended, all others keep their value.\<close>

lemma ema_loop_overlap:
  "length new_probs \<le> length es \<Longrightarrow>
   ema_loop new_probs alpha i es =
     Inr (map (\<lambda>j. if i \<le> j \<and> j < length new_probs
                    then alpha * new_probs ! j + (1 - alpha) * es ! j
                    else es ! j) [0..<length es])"
proof (induction new_probs alpha i es rule: ema_loop.induct)
  case (1 new_probs alpha i es)
  show ?case
  proof (cases "i < length new_probs")
    case True
    with "1.prems" have lt: "i < length es" by simp
    let ?e = "es[i := alpha * new_probs ! i + (1 - alpha) * es ! i]"
    have "ema_loop new_probs alpha i es = ema_loop new_probs alpha (Suc i) ?e"
      using True lt by (subst ema_loop.simps) simp
    also have "\<dots> = Inr (map (\<lambda>j. if Suc i \<le> j \<and> j < length new_probs
                    then alpha * new_probs ! j + (1 - alpha) * ?e ! j
                    else ?e ! j) [0..<length ?e])"
      using True lt "1.prems" by (intro "1.IH") simp_all
    also have "(map (\<lambda>j. if Suc i \<le> j \<and> j < length new_probs
                    then alpha * new_probs ! j + (1 - alpha) * ?e ! j
                    else ?e ! j) [0..<length ?e]) =
               (map (\<lambda>j. if i \<le> j \<and> j < length new_probs
                    then alpha * new_probs ! j + (1 - alpha) * es ! j
                    else es ! j) [0..<length es])"
      using True lt by (intro nth_equalityI) (auto simp: nth_list_update)
    finally show ?thesis .
  next
    case False
    then have "ema_loop new_probs alpha i es = Inr es"
      by (subst ema_loop.simps) simp
    moreover have "map (\<lambda>j. if i \<le> j \<and> j < length new_probs
                    then alpha * new_probs ! j + (1 - alpha) * es ! j
                    else es ! j) [0..<length es] = es"
      using False by (intro nth_equalityI) auto
    ultimately show ?thesis by simp
  qed
qed

text \<open>The loop on a state that is too short runs into the access beyond its end.\<close>

lemma ema_loop_overrun:
  "length es < length new_probs \<Longrightarrow> i \<le> length es \<Longrightarrow>
   ema_loop new_probs alpha i es = Inl IndexOutOfRange"
proof (induction new_probs alpha i es rule: ema_loop.induct)
  case (1 new_probs alpha i es)
  from "1.prems" have True: "i < length new_probs" by simp
  show ?case
  proof (cases "i < length es")
    case lt: True
    let ?e = "es[i := alpha * new_probs ! i + (1 - alpha) * es ! i]"
    have "ema_loop new_probs alpha i es = ema_loop new_probs alpha (Suc i) ?e"
      using True lt by (subst ema_loop.simps) simp
    also have "\<dots> = Inl IndexOutOfRange"
      using True lt "1.prems" by (intro "1.IH") simp_all
    finally show ?thesis .
  next
    case False
    with True show ?thesis
      by (subst ema_loop.simps) simp
  qed
qed

lemma applyEma_seed: "applyEma new_probs [] alpha = Inr (new_probs, new_probs)"
  by (simp add: applyEma_def)

lemma applyEma_overlap:
  assumes "es \<noteq> []" and "length new_probs \<le> length es"
  shows "applyEma new_probs es alpha =
     (let r = map (\<lambda>j. if j < length new_probs
                        then alpha * new_probs ! j + (1 - alpha) * es ! j
                        else es ! j) [0..<length es]
      in Inr (r, r))"
  using assms by (simp add: applyEma_def ema_loop_overlap Let_def)

lemma applyEma_overrun:
  assumes "es \<noteq> []" and "length es < length new_probs"
  shows "applyEma new_probs es alpha = Inl IndexOutOfRange"
  using assms by (simp add: applyEma_def ema_loop_overrun)

lemma applyEma_length:
  assumes "applyEma new_probs es alpha = Inr (r, e)"
  shows "r = e \<and> length e = (if es = [] then length new_probs else length es)"
  using assms by (auto simp: applyEma_def ema_loop_length split: if_splits sum.splits)

text \<open>
  Claim C5. On the first call, when the state is still empty, \<open>applyEma\<close> makes the state
  a copy of the new vector and returns that vector as it is, whatever \<open>alpha\<close> is: no
  blending takes place. Seeding with \<open>[0.1, 0.1, 0.1, 0.7]\<close> gives that state.
\<close>

theorem applyEma_first_call:
  "applyEma new_probs [] alpha = Inr (new_probs, new_probs)
   \<and> applyEma [1 / 10, 1 / 10, 1 / 10, 7 / 10 :: real] [] (1 / 10)
       = Inr ([1 / 10, 1 / 10, 1 / 10, 7 / 10], [1 / 10, 1 / 10, 1 / 10, 7 / 10])"
  by (simp add: applyEma_def)

text \<open>
  Claim C4. On a call with a non-empty state the blend
  \<open>alpha * new_probs[i] + (1 - alpha) * ema_state[i]\<close> is to be applied at the indices
  valid in both vectors, with no access outside either of them, also when the new
  vector is the longer one. The loop is bounded by the length of the new vector only
  (\<open>applyEma_overlap\<close> is the case where that is enough, \<open>applyEma_overrun\<close> the other
  one): with state \<open>[1]\<close> and new vector \<open>[0, 1]\<close> its second round reads and writes
  \<^verbatim>\<open>ema_state[1]\<close>, one element beyond the end of the state.
\<close>

theorem applyEma_overrun_at_longer_input:
  "applyEma [0, 1 :: real] [1] (1 / 2) = Inl IndexOutOfRange"
  by (simp add: applyEma_def ema_loop.simps)

text \<open>The example of the specification, on vectors of equal length.\<close>

lemma applyEma_example:
  "applyEma [0, 1 :: real] [1, 0] (1 / 2) = Inr ([1 / 2, 1 / 2], [1 / 2, 1 / 2])"
  by (simp add: applyEma_def ema_loop.simps)

subsection \<open>The history buffer\<close>

lemma push_history_length:
  "length hs \<le> cap \<Longrightarrow> length (push_history cap hs x) \<le> cap"
  by (simp add: push_history_def Let_def)

lemma push_all_snoc:
  "push_all cap hs (items @ [x]) =
   push_history cap (push_all cap hs items) x"
  by (simp add: push_all_def)

lemma push_all_from_empty:
  "push_all cap [] items = drop (length items - cap) items"
proof (induction items rule: rev_induct)
  case Nil
  show ?case by (simp add: push_all_def)
next
  case (snoc x items)
  show ?case
  proof (cases "cap \<le> length items")
    case True
    then have "length (drop (length items - cap) items @ [x]) > cap"
      by simp
    then have "push_all cap [] (items @ [x]) =
               tl (drop (length items - cap) items @ [x])"
      by (simp add: push_all_snoc snoc.IH push_history_def Let_def)
    also have "\<dots> = tl (drop (length items - cap) (items @ [x]))"
      by simp
    also have "\<dots> = drop (Suc (length items - cap)) (items @ [x])"
      by (simp only: drop_Suc tl_drop)
    also have "Suc (length items - cap) = length (items @ [x]) - cap"
      using True by simp
    finally show ?thesis .
  next
    case False
    then show ?thesis
      by (simp add: push_all_snoc snoc.IH push_history_def Let_def)
  qed
qed

text \<open>
  Claim C2. A push onto a buffer within its capacity leaves it within its capacity; a
  buffer filled from empty is never longer than the capacity, and after
  \<open>capacity + k\<close> pushes with \<open>k > 0\<close> it holds exactly the last \<open>capacity\<close> pushed
  items, in the order they were pushed.
\<close>

theorem history_bounded_fifo:
  "(length hs \<le> cap \<longrightarrow> length (push_history cap hs x) \<le> cap)
   \<and> length (push_all cap [] items) \<le> cap
   \<and> (\<forall>k. 0 < k \<and> length items = cap + k \<longrightarrow>
          push_all cap [] items = drop k items
          \<and> length (push_all cap [] items) = cap)"
  by (simp add: push_history_length push_all_from_empty)

theorem history_bounded_fifo_witness:
  "length [[1 :: real]] \<le> 2
   \<and> length (push_history 2 [[1 :: real]] [2]) \<le> 2
   \<and> 0 < (1 :: nat) \<and> length [[1 :: real], [2], [3]] = 2 + 1
   \<and> push_all 2 [] [[1 :: real], [2], [3]] = [[2], [3]]"
  using history_bounded_fifo [of "[[1 :: real]]" 2 "[2 :: real]" "[[1 :: real], [2], [3]]"]
  by simp

subsection \<open>Median over the history\<close>

lemma collect_column_eq: "collect_column c hs col = col @ column c hs"
  by (induction hs arbitrary: col) (simp_all add: column_def)

lemma median_step_eq:
  "median_step hs c medians =
     (if column c hs \<noteq> [] then medians[c := upper_middle (column c hs)] else medians)"
  by (simp add: median_step_def collect_column_eq nth_element_def upper_middle_def Let_def)

lemma fold_median_step_length:
  "length (fold (median_step hs) [0..<n] medians) = length medians"
  by (induction n) (simp_all add: median_step_eq)

lemma fold_median_step_nth:
  "c < length medians \<Longrightarrow>
   fold (median_step hs) [0..<n] medians ! c =
     (if c < n \<and> column c hs \<noteq> [] then upper_middle (column c hs) else medians ! c)"
proof (induction n)
  case 0
  show ?case by simp
next
  case (Suc n)
  define prev where "prev = fold (median_step hs) [0..<n] medians"
  have len: "length prev = length medians"
    by (simp add: prev_def fold_median_step_length)
  have prev: "prev ! c =
      (if c < n \<and> column c hs \<noteq> [] then upper_middle (column c hs) else medians ! c)"
    using Suc by (simp add: prev_def)
  have "fold (median_step hs) [0..<Suc n] medians = median_step hs n prev"
    by (simp add: prev_def)
  also have "\<dots> = (if column n hs \<noteq> [] then prev[n := upper_middle (column n hs)] else prev)"
    by (rule median_step_eq)
  finally have "fold (median_step hs) [0..<Suc n] medians ! c =
      (if column n hs \<noteq> [] then prev[n := upper_middle (column n hs)] else prev) ! c"
    by simp
  also have "\<dots> =
      (if c < Suc n \<and> column c hs \<noteq> [] then upper_middle (column c hs) else medians ! c)"
    using Suc.prems len prev by (cases "c = n") (auto simp: nth_list_update)
  finally show ?case .
qed

lemma medianFromHistory_length:
  "hs \<noteq> [] \<Longrightarrow> length (medianFromHistory hs) = length (hd hs)"
  by (simp add: medianFromHistory_def fold_median_step_length Let_def)

lemma medianFromHistory_nth:
  assumes "hs \<noteq> []" and "c < length (hd hs)"
  shows "medianFromHistory hs ! c =
     (if column c hs \<noteq> [] then upper_middle (column c hs) else 0)"
  using assms by (simp add: medianFromHistory_def fold_median_step_nth Let_def)

text \<open>The first entry is in every column below its own length, so no column is empty.\<close>

lemma column_first_entry:
  assumes "hs \<noteq> []" and "c < length (hd hs)"
  shows "column c hs \<noteq> []"
  using assms by (cases hs) (simp_all add: column_def)

lemma upper_middle_odd:
  assumes "odd (length col)"
  shows "upper_middle col = lower_middle col"
proof -
  from assms obtain m where "length col = 2 * m + 1"
    by (auto elim: oddE)
  then show ?thesis
    by (simp add: upper_middle_def lower_middle_def)
qed

lemma upper_middle_even:
  assumes "even (length col)" and "col \<noteq> []"
  shows "length col div 2 = Suc ((length col - 1) div 2)"
proof -
  from assms obtain m where m: "length col = 2 * m"
    by (auto elim: evenE)
  with assms have "0 < m" by (cases m) simp_all
  with m show ?thesis
    by (cases m) simp_all
qed

text \<open>
  Claim C3, as stated, calls the element at index \<open>size div 2\<close> of the sorted column
  its lower-middle element. For the two-entry history \<open>[[0], [1]]\<close> the column is
  \<open>[0, 1]\<close>, its lower-middle element is \<open>0\<close>, and the code returns \<open>1\<close>.
\<close>

theorem medianFromHistory_lower_middle_counterexample:
  "medianFromHistory [[0], [1 :: real]] = [1]
   \<and> column 0 [[0], [1 :: real]] = [0, 1]
   \<and> lower_middle (column 0 [[0], [1 :: real]]) = 0
   \<and> medianFromHistory [[0], [1 :: real]] ! 0 \<noteq> lower_middle (column 0 [[0], [1 :: real]])"
  by (simp add: medianFromHistory_def median_step_def nth_element_def column_def
      lower_middle_def)

text \<open>
  Claim C3, amended. For every non-empty history the result has the length of the first
  entry, and at each class index \<open>c\<close> below that length it is the element at index
  \<open>size div 2\<close> (counted from 0) of the sorted column of \<open>c\<close>: the middle element when
  the size is odd, the upper of the two middle elements when it is even, never an
  average. The result would be \<open>0\<close> for an empty column; the first entry is in every
  column, so that case does not arise. The history \<open>[[0, 1], [1, 0], [0.5, 0.5]]\<close>
  gives \<open>[0.5, 0.5]\<close>.
\<close>

theorem medianFromHistory_upper_middle:
  assumes "hs \<noteq> []"
  shows "length (medianFromHistory hs) = length (hd hs)
   \<and> (\<forall>c < length (hd hs).
        (column c hs \<noteq> [] \<longrightarrow>
           medianFromHistory hs ! c = sort (column c hs) ! (length (column c hs) div 2))
      \<and> (column c hs = [] \<longrightarrow> medianFromHistory hs ! c = 0)
      \<and> (odd (length (column c hs)) \<longrightarrow>
           medianFromHistory hs ! c = lower_middle (column c hs))
      \<and> (column c hs \<noteq> [] \<and> even (length (column c hs)) \<longrightarrow>
           medianFromHistory hs ! c
             = sort (column c hs) ! Suc ((length (column c hs) - 1) div 2)))
   \<and> medianFromHistory [[0, 1], [1, 0], [1 / 2, 1 / 2 :: real]] = [1 / 2, 1 / 2]"
proof -
  have ex: "medianFromHistory [[0, 1], [1, 0], [1 / 2, 1 / 2 :: real]] = [1 / 2, 1 / 2]"
    by (simp add: medianFromHistory_def median_step_def nth_element_def upt_rec)
  have "\<forall>c < length (hd hs).
        (column c hs \<noteq> [] \<longrightarrow>
           medianFromHistory hs ! c = sort (column c hs) ! (length (column c hs) div 2))
      \<and> (column c hs = [] \<longrightarrow> medianFromHistory hs ! c = 0)
      \<and> (odd (length (column c hs)) \<longrightarrow>
           medianFromHistory hs ! c = lower_middle (column c hs))
      \<and> (column c hs \<noteq> [] \<and> even (length (column c hs)) \<longrightarrow>
           medianFromHistory hs ! c
             = sort (column c hs) ! Suc ((length (column c hs) - 1) div 2))"
  proof (intro allI impI)
    fix c assume c: "c < length (hd hs)"
    have ne: "column c hs \<noteq> []"
      using assms c by (rule column_first_entry)
    have m: "medianFromHistory hs ! c = upper_middle (column c hs)"
      using assms c ne by (simp add: medianFromHistory_nth)
    show "(column c hs \<noteq> [] \<longrightarrow>
           medianFromHistory hs ! c = sort (column c hs) ! (length (column c hs) div 2))
      \<and> (column c hs = [] \<longrightarrow> medianFromHistory hs ! c = 0)
      \<and> (odd (length (column c hs)) \<longrightarrow>
           medianFromHistory hs ! c = lower_middle (column c hs))
      \<and> (column c hs \<noteq> [] \<and> even (length (column c hs)) \<longrightarrow>
           medianFromHistory hs ! c
             = sort (column c hs) ! Suc ((length (column c hs) - 1) div 2))"
      using ne m upper_middle_odd [of "column c hs"] upper_middle_even [of "column c hs"]
      by (simp add: upper_middle_def)
  qed
  with ex assms show ?thesis
    by (simp only: medianFromHistory_length simp_thms)
qed

theorem medianFromHistory_upper_middle_witness:
  "[[0], [1 :: real]] \<noteq> []
   \<and> length (medianFromHistory [[0], [1 :: real]]) = 1
   \<and> (0 :: nat) < length (hd [[0], [1 :: real]])
   \<and> column 0 [[0], [1 :: real]] \<noteq> []
   \<and> even (length (column 0 [[0], [1 :: real]]))
   \<and> medianFromHistory [[0], [1 :: real]] ! 0 = 1"
proof -
  have h: "[[0], [1 :: real]] \<noteq> []" by simp
  show ?thesis
    using medianFromHistory_upper_middle [OF h] by (simp add: column_def)
qed

subsection \<open>The frame loop\<close>



text \<open>What a cycle that displays something has done.\<close>

lemma cycle_Some:
  assumes "cycle cfg st probabilities = Inr (st', Some d)"
  shows "probabilities \<noteq> []
    \<and> applyEma (adjust (adjuster cfg) probabilities) (ema_state st) (ema_alpha cfg)
        = Inr (ema_state st', ema_state st')
    \<and> history st' = push_history (maxHistory cfg) (history st) (ema_state st')
    \<and> d = display_probs (medianFromHistory (history st')) (ema_state st')"
proof -
  from assms have ne: "probabilities \<noteq> []"
    by (auto simp: cycle_def split: if_splits)
  with assms obtain r e where
    a: "applyEma (adjust (adjuster cfg) probabilities) (ema_state st) (ema_alpha cfg) = Inr (r, e)"
    by (auto simp: cycle_def Let_def split: sum.splits)
  then have "r = e"
    by (simp add: applyEma_length)
  with assms ne a show ?thesis
    by (auto simp: cycle_def Let_def)
qed






text \<open>
  Claim C6. The median of an empty history is the empty vector. In every cycle that
  displays something, the state was smoothed with the adjusted input, the smoothed
  vector was pushed, and the vector displayed is the median of the history after the
  push when that median is not empty, and the smoothed vector itself when it is.
\<close>

theorem cycle_display_fallback:
  "medianFromHistory ([] :: 'a::{zero,linorder} list list) = []
   \<and> (cycle cfg st probabilities = Inr (st', Some d) \<longrightarrow>
        applyEma (adjust (adjuster cfg) probabilities) (ema_state st) (ema_alpha cfg)
          = Inr (ema_state st', ema_state st')
      \<and> history st' = push_history (maxHistory cfg) (history st) (ema_state st')
      \<and> (medianFromHistory (history st') \<noteq> [] \<longrightarrow> d = medianFromHistory (history st'))
      \<and> (medianFromHistory (history st') = [] \<longrightarrow> d = ema_state st'))"
proof -
  have "medianFromHistory ([] :: 'a list list) = []"
    by (simp add: medianFromHistory_def)
  moreover have "cycle cfg st probabilities = Inr (st', Some d) \<longrightarrow>
        applyEma (adjust (adjuster cfg) probabilities) (ema_state st) (ema_alpha cfg)
          = Inr (ema_state st', ema_state st')
      \<and> history st' = push_history (maxHistory cfg) (history st) (ema_state st')
      \<and> (medianFromHistory (history st') \<noteq> [] \<longrightarrow> d = medianFromHistory (history st'))
      \<and> (medianFromHistory (history st') = [] \<longrightarrow> d = ema_state st')"
    using cycle_Some [of cfg st probabilities st' d] by (auto simp: display_probs_def)
  ultimately show ?thesis by (rule conjI)
qed

text \<open>The first frame of a run with the constants of the source.\<close>

lemma cycle_reference_first:
  "cycle reference_config initial [1 / 2, 1 / 2]
     = Inr (\<lparr>history = [[1 / 2, 1 / 2]], ema_state = [1 / 2, 1 / 2]\<rparr>, Some [1 / 2, 1 / 2])"
  by (simp add: cycle_def reference_config_def initial_def adjust_def static_cast_size_t_def
      accumulate_def applyEma_def push_history_def medianFromHistory_def median_step_def
      nth_element_def display_probs_def upt_rec Let_def)

theorem cycle_display_fallback_witness:
  "cycle reference_config initial [1 / 2, 1 / 2]
     = Inr (\<lparr>history = [[1 / 2, 1 / 2]], ema_state = [1 / 2, 1 / 2]\<rparr>, Some [1 / 2, 1 / 2])
   \<and> medianFromHistory [[1 / 2, 1 / 2 :: real]] \<noteq> []
   \<and> [1 / 2, 1 / 2] = medianFromHistory [[1 / 2, 1 / 2 :: real]]"
proof -
  let ?st = "\<lparr>history = [[1 / 2, 1 / 2 :: real]], ema_state = [1 / 2, 1 / 2]\<rparr>"
  have m: "medianFromHistory (history ?st) \<noteq> []"
    by (simp add: medianFromHistory_def median_step_def nth_element_def upt_rec)
  from cycle_display_fallback [of reference_config initial "[1 / 2, 1 / 2]" ?st "[1 / 2, 1 / 2]"]
    cycle_reference_first m
  have "[1 / 2, 1 / 2] = medianFromHistory (history ?st)"
    by blast
  with m cycle_reference_first show ?thesis
    by simp
qed



subsection \<open>The adjuster in exact arithmetic\<close>

text \<open>
  In an ordered field, that is without rounding and without overflow, a vector of
  non-negative values with a positive sum is normalised to sum exactly 1 by an adjuster
  with a positive boost factor.
\<close>

lemma accumulate_sum_list:
  fixes xs :: "'a::monoid_add list"
  shows "accumulate xs a = a + sum_list xs"
  unfolding accumulate_def by (induction xs arbitrary: a) (simp_all add: add.assoc)

lemma adjust_sum_exact:
  fixes probabilities :: "'a::linordered_field list"
  assumes nonneg: "\<forall>p \<in> set probabilities. 0 \<le> p"
    and pos: "0 < sum_list probabilities"
    and bf: "0 < boostFactor self"
  shows "sum_list (adjust self probabilities) = 1"
proof -
  define k where "k = static_cast_size_t (neutralIndex self)"
  define b where "b = (if k < length probabilities
      then probabilities[k := probabilities ! k * boostFactor self] else probabilities)"
  define s where "s = sum_list b"
  have a: "adjust self probabilities = (if 0 < s then map (\<lambda>p. p / s) b else b)"
    by (simp add: adjust_def Let_def k_def b_def s_def accumulate_sum_list)
  have b_nonneg: "0 \<le> x" if "x \<in> set b" for x
  proof (cases "k < length probabilities")
    case True
    then have "0 \<le> probabilities ! k * boostFactor self"
      using nonneg bf by (simp add: mult_nonneg_nonneg)
    moreover from that True have "x = probabilities ! k * boostFactor self \<or> x \<in> set probabilities"
      using set_update_subset_insert [of probabilities k "probabilities ! k * boostFactor self"]
      by (auto simp: b_def)
    ultimately show ?thesis using nonneg by auto
  next
    case False
    with that nonneg show ?thesis by (simp add: b_def)
  qed
  then have "0 \<le> s"
    unfolding s_def by (rule sum_list_nonneg)
  moreover have "s \<noteq> 0"
  proof
    assume "s = 0"
    then have z: "\<forall>x \<in> set b. x = 0"
      using b_nonneg by (simp add: s_def sum_list_nonneg_eq_0_iff)
    have "p = 0" if "p \<in> set probabilities" for p
    proof -
      from that obtain j where j: "j < length probabilities" and p: "p = probabilities ! j"
        by (auto simp: in_set_conv_nth)
      then have "b ! j \<in> set b"
        by (simp add: b_def)
      with z have "b ! j = 0" by blast
      with j p bf show ?thesis
        by (cases "j = k") (auto simp: b_def nth_list_update split: if_splits)
    qed
    then have "sum_list probabilities = 0"
      using nonneg by (simp add: sum_list_nonneg_eq_0_iff)
    with pos show False by simp
  qed
  ultimately have "0 < s" by simp
  then have "adjust self probabilities = map (\<lambda>p. p * inverse s) b"
    by (simp add: a divide_inverse)
  then have "sum_list (adjust self probabilities) = s * inverse s"
    by (simp add: sum_list_mult_const s_def)
  with \<open>0 < s\<close> show ?thesis by simp
qed

subsection \<open>The sum of the adjusted vector\<close>




subsection \<open>The end-to-end scenario\<close>

text \<open>
  On a non-empty state of the length of the new vector \<open>applyEma\<close> is the blend of the
  specification.
\<close>

lemma ema_blend_length:
  "length (ema_blend alpha new_probs es) = min (length new_probs) (length es)"
  by (simp add: ema_blend_def)

lemma applyEma_blend:
  assumes "es \<noteq> []" and "length new_probs = length es"
  shows "applyEma new_probs es alpha
           = Inr (ema_blend alpha new_probs es, ema_blend alpha new_probs es)"
proof -
  have "map (\<lambda>j. if j < length new_probs
                   then alpha * new_probs ! j + (1 - alpha) * es ! j
                   else es ! j) [0..<length es] = ema_blend alpha new_probs es"
    using assms(2) by (intro nth_equalityI) (simp_all add: ema_blend_def)
  with applyEma_overlap [OF assms(1), of new_probs alpha] assms(2) show ?thesis
    by (simp add: Let_def)
qed

lemma static_cast_size_t_3: "static_cast_size_t 3 = 3"
  by (simp add: static_cast_size_t_def)

text \<open>
  The median of a history of one entry is that entry; over three entries of full
  length it is, class by class, the middle one of the three values.
\<close>

lemma median_of_one:
  "medianFromHistory [e] = e"
proof (rule nth_equalityI)
  show "length (medianFromHistory [e]) = length e"
    by (simp add: medianFromHistory_length)
next
  fix c assume "c < length (medianFromHistory [e])"
  then have c: "c < length e" by (simp add: medianFromHistory_length)
  then have "column c [e] = [e ! c]" by (simp add: column_def)
  with c show "medianFromHistory [e] ! c = e ! c"
    by (simp add: medianFromHistory_nth upper_middle_def)
qed

lemma median_of_three:
  assumes "c < length e1" and "c < length e2" and "c < length e3"
  shows "medianFromHistory [e1, e2, e3] ! c = sort [e1 ! c, e2 ! c, e3 ! c] ! 1"
proof -
  from assms have "column c [e1, e2, e3] = [e1 ! c, e2 ! c, e3 ! c]"
    by (simp add: column_def)
  with assms(1) show ?thesis
    by (simp add: medianFromHistory_nth upper_middle_def del: sort_key_simps)
qed

text \<open>A cycle on a non-empty vector, when the smoothing succeeds and the median is not empty.\<close>

lemma cycle_step:
  assumes "probabilities \<noteq> []"
    and "applyEma (adjust (adjuster cfg) probabilities) (ema_state st) (ema_alpha cfg) = Inr (e, e)"
    and "medianFromHistory (push_history (maxHistory cfg) (history st) e) \<noteq> []"
  shows "cycle cfg st probabilities =
     Inr (\<lparr>history = push_history (maxHistory cfg) (history st) e, ema_state = e\<rparr>,
          Some (medianFromHistory (push_history (maxHistory cfg) (history st) e)))"
  using assms by (simp add: cycle_def Let_def display_probs_def)

text \<open>
  Claim C8, as stated, expects the adjusted vector \<open>[1/7, 1/7, 1/7, 4/7]\<close>. Doubling
  the last of four quarters gives \<open>[1/4, 1/4, 1/4, 1/2]\<close>, of sum \<open>5/4\<close>, and the
  quotients are a fifth and two fifths; the expected vector would need a boost factor
  of 4.
\<close>

theorem scenario_adjusted_counterexample:
  "adjust (adjuster (scenario_config 2 (1 / 10))) [1 / 4, 1 / 4, 1 / 4, 1 / 4 :: real]
     \<noteq> [1 / 7, 1 / 7, 1 / 7, 4 / 7]"
  by (simp add: scenario_config_def adjust_def static_cast_size_t_def accumulate_def)

text \<open>
  Claim C8, amended. For every element type, boost factor \<open>bf\<close>, coefficient \<open>a\<close> and
  value \<open>q\<close> such that the boosted copy \<open>[q, q, q, q * bf]\<close> of the input
  \<open>[q, q, q, q]\<close> accumulates to a positive \<open>s\<close>: each of the three calls adjusts the
  input to \<open>e1 = [q / s, q / s, q / s, q * bf / s]\<close>; the moving average is seeded with
  \<open>e1\<close> and is then blended with \<open>e1\<close> twice, giving \<open>e2\<close> and \<open>e3\<close>; after three
  pushes the history holds exactly the three entries \<open>e1\<close>, \<open>e2\<close>, \<open>e3\<close>, nothing
  having been evicted; the median displayed after the first call is \<open>e1\<close>, and the one
  displayed after the third is, class by class, the middle one of the three values.
  Nothing is said on whether the three entries are equal: that is a matter of the
  arithmetic of the blend, which the element type leaves open.
\<close>

theorem scenario_three_frames:
  fixes q bf a :: "'a::{zero,one,plus,minus,times,inverse,linorder}"
  assumes "0 < accumulate [q, q, q, q * bf] 0"
  shows "let u = [q, q, q, q];
             s = accumulate [q, q, q, q * bf] 0;
             e1 = [q / s, q / s, q / s, q * bf / s];
             e2 = ema_blend a e1 e1;
             e3 = ema_blend a e1 e2
         in adjust (adjuster (scenario_config bf a)) u = e1
          \<and> run (scenario_config bf a) initial [u, u, u]
              = Inr (\<lparr>history = [e1, e2, e3], ema_state = e3\<rparr>,
                     [Some (medianFromHistory [e1]), Some (medianFromHistory [e1, e2]),
                      Some (medianFromHistory [e1, e2, e3])])
          \<and> medianFromHistory [e1] = e1
          \<and> length (medianFromHistory [e1, e2, e3]) = 4
          \<and> (\<forall>c < 4. medianFromHistory [e1, e2, e3] ! c = sort [e1 ! c, e2 ! c, e3 ! c] ! 1)"
proof -
  define u where "u = [q, q, q, q]"
  define s where "s = accumulate [q, q, q, q * bf] 0"
  define e1 where "e1 = [q / s, q / s, q / s, q * bf / s]"
  define e2 where "e2 = ema_blend a e1 e1"
  define e3 where "e3 = ema_blend a e1 e2"
  define cfg where "cfg = scenario_config bf a"
  have cfg: "adjuster cfg = \<lparr>boostFactor = bf, neutralIndex = 3\<rparr>" "ema_alpha cfg = a"
    "maxHistory cfg = 3"
    by (simp_all add: cfg_def scenario_config_def)
  have len: "length e1 = 4" "length e2 = 4" "length e3 = 4"
    by (simp_all add: e1_def e2_def e3_def ema_blend_length)
  then have ne: "e1 \<noteq> []" "e2 \<noteq> []" by auto
  have adj: "adjust (adjuster cfg) u = e1"
    using assms by (simp add: cfg adjust_def static_cast_size_t_3 u_def s_def e1_def Let_def)
  have m1: "medianFromHistory [e1] \<noteq> []" and m2: "medianFromHistory [e1, e2] \<noteq> []"
    and m3: "medianFromHistory [e1, e2, e3] \<noteq> []"
    using len medianFromHistory_length [of "[e1]"] medianFromHistory_length [of "[e1, e2]"]
      medianFromHistory_length [of "[e1, e2, e3]"] by auto
  have une: "u \<noteq> []" by (simp add: u_def)
  have a1: "applyEma (adjust (adjuster cfg) u) (ema_state initial) (ema_alpha cfg) = Inr (e1, e1)"
    by (simp add: adj initial_def applyEma_seed)
  have p1: "push_history (maxHistory cfg) (history initial) e1 = [e1]"
    by (simp add: cfg(3) initial_def push_history_def)
  have c1: "cycle cfg initial u = Inr (\<lparr>history = [e1], ema_state = e1\<rparr>,
      Some (medianFromHistory [e1]))"
    using cycle_step [OF une a1] m1 by (simp add: p1)
  let ?st1 = "\<lparr>history = [e1], ema_state = e1\<rparr>"
  have a2: "applyEma (adjust (adjuster cfg) u) (ema_state ?st1) (ema_alpha cfg) = Inr (e2, e2)"
    using ne by (simp add: adj cfg(2) applyEma_blend e2_def)
  have p2: "push_history (maxHistory cfg) [e1] e2 = [e1, e2]"
    by (simp add: cfg(3) push_history_def)
  have c2: "cycle cfg ?st1 u
      = Inr (\<lparr>history = [e1, e2], ema_state = e2\<rparr>, Some (medianFromHistory [e1, e2]))"
    using cycle_step [OF une a2] m2 by (simp add: p2)
  let ?st2 = "\<lparr>history = [e1, e2], ema_state = e2\<rparr>"
  have a3: "applyEma (adjust (adjuster cfg) u) (ema_state ?st2) (ema_alpha cfg) = Inr (e3, e3)"
    using ne len by (simp add: adj cfg(2) applyEma_blend e3_def)
  have p3: "push_history (maxHistory cfg) [e1, e2] e3 = [e1, e2, e3]"
    by (simp add: cfg(3) push_history_def)
  have c3: "cycle cfg ?st2 u
      = Inr (\<lparr>history = [e1, e2, e3], ema_state = e3\<rparr>,
             Some (medianFromHistory [e1, e2, e3]))"
    using cycle_step [OF une a3] m3 by (simp add: p3)
  have r: "run cfg initial [u, u, u]
      = Inr (\<lparr>history = [e1, e2, e3], ema_state = e3\<rparr>,
             [Some (medianFromHistory [e1]), Some (medianFromHistory [e1, e2]),
              Some (medianFromHistory [e1, e2, e3])])"
    by (simp add: c1 c2 c3)
  have l3: "length (medianFromHistory [e1, e2, e3]) = 4"
    using len by (simp add: medianFromHistory_length)
  have med: "\<forall>c < 4. medianFromHistory [e1, e2, e3] ! c = sort [e1 ! c, e2 ! c, e3 ! c] ! 1"
  proof (intro allI impI)
    fix c :: nat assume "c < 4"
    with len show "medianFromHistory [e1, e2, e3] ! c = sort [e1 ! c, e2 ! c, e3 ! c] ! 1"
      by (intro median_of_three) simp_all
  qed
  from adj r l3 med median_of_one [of e1] show ?thesis
    unfolding Let_def u_def [symmetric] s_def [symmetric] e1_def [symmetric]
      e2_def [symmetric] e3_def [symmetric] cfg_def [symmetric]
    by (intro conjI)
qed

text \<open>
  The numbers of the scenario, \<open>q = 1/4\<close> and \<open>bf = 2\<close>: the boosted copy accumulates to
  \<open>5/4\<close> and the adjusted vector is \<open>[1/5, 1/5, 1/5, 2/5]\<close> before any rounding of the
  four divisions.
\<close>

theorem scenario_three_frames_witness:
  "0 < accumulate [1 / 4, 1 / 4, 1 / 4, 1 / 4 * 2 :: real] 0
   \<and> accumulate [1 / 4, 1 / 4, 1 / 4, 1 / 4 * 2 :: real] 0 = 5 / 4
   \<and> adjust (adjuster (scenario_config 2 (1 / 10))) [1 / 4, 1 / 4, 1 / 4, 1 / 4 :: real]
       = [1 / 5, 1 / 5, 1 / 5, 2 / 5]
   \<and> medianFromHistory [[1 / 5, 1 / 5, 1 / 5, 2 / 5 :: real]] = [1 / 5, 1 / 5, 1 / 5, 2 / 5]"
proof -
  have h: "0 < accumulate [1 / 4, 1 / 4, 1 / 4, 1 / 4 * 2 :: real] 0"
    by (simp add: accumulate_def)
  have s: "accumulate [1 / 4, 1 / 4, 1 / 4, 1 / 4 * 2 :: real] 0 = 5 / 4"
    by (simp add: accumulate_def)
  note t = scenario_three_frames [OF h, of "1 / 10", unfolded Let_def]
  from t [THEN conjunct1]
  have a: "adjust (adjuster (scenario_config 2 (1 / 10))) [1 / 4, 1 / 4, 1 / 4, 1 / 4 :: real]
       = [1 / 5, 1 / 5, 1 / 5, 2 / 5]"
    by (simp add: accumulate_def)
  from t [THEN conjunct2, THEN conjunct2, THEN conjunct1]
  have m: "medianFromHistory [[1 / 5, 1 / 5, 1 / 5, 2 / 5 :: real]] = [1 / 5, 1 / 5, 1 / 5, 2 / 5]"
    by (simp add: accumulate_def)
  from h s a m show ?thesis
    by (intro conjI)
qed

subsection \<open>Construction\<close>

text \<open>
  Claim C9, as stated, has the construction of a component fail on a negative boost
  factor. The constructor has no check: with \<open>-1\<close> it returns an adjuster that holds
  \<open>-1\<close> and that adjusts vectors with it.
\<close>

theorem construction_accepts_negative_boost_counterexample:
  "new_EmotionProbabilityAdjuster (- 1 :: real) 3 = Inr \<lparr>boostFactor = - 1, neutralIndex = 3\<rparr>
   \<and> adjust \<lparr>boostFactor = - 1 :: real, neutralIndex = 3\<rparr> [1 / 2, 1 / 4, 1 / 4, 1 / 4]
       = [2 / 3, 1 / 3, 1 / 3, - 1 / 3]"
  by (simp add: new_EmotionProbabilityAdjuster_def adjust_def static_cast_size_t_def
      accumulate_def)

text \<open>
  Claim C9, amended. No configuration value is checked. The constructor of the adjuster
  accepts every boost factor and every neutral index and stores them as given, neither
  rejected nor clamped. The smoothing coefficient and the history bound are not
  arguments of any constructor: the frame loop fixes them, with the adjuster, as
  \<open>2.0\<close>, \<open>3\<close>, \<open>0.1\<close> and \<open>60\<close>; \<open>applyEma\<close> and the push take the coefficient and the
  bound they are given, a coefficient of \<open>2\<close> or \<open>0\<close> and a bound of \<open>0\<close> included.
\<close>

theorem construction_unchecked:
  "new_EmotionProbabilityAdjuster bf ni = Inr \<lparr>boostFactor = bf, neutralIndex = ni\<rparr>
   \<and> adjuster reference_config = \<lparr>boostFactor = 2, neutralIndex = 3\<rparr>
   \<and> ema_alpha reference_config = 1 / 10
   \<and> maxHistory reference_config = 60
   \<and> applyEma [1 :: real] [0] 2 = Inr ([2], [2])
   \<and> applyEma [1 :: real] [1 / 2] 0 = Inr ([1 / 2], [1 / 2])
   \<and> push_history 0 [] [1 :: real] = []"
  by (simp add: new_EmotionProbabilityAdjuster_def reference_config_def applyEma_def
      ema_loop.simps push_history_def)

end
